theory Spec2Isabelle
  imports Main
begin

section \<open>Data model of routes/chat.tsx\<close>

text \<open>
  The chat route keeps one \<open>DeviceState\<close> per device id in a React state cell
  \<open>deviceStates : Map<string, DeviceState>\<close>. Every write goes through
  \<open>setDeviceStates(prev => ...)\<close>: React applies the queued updater functions one
  after the other, each to the map produced by the one before. An updater is therefore
  a function from store to store, and a run of the component is a composition of them.
\<close>

type_synonym device_id = string

text \<open>The object returned by \<open>sendMessageStream\<close>; only its identity matters here.\<close>

type_synonym stream_handle = nat

text \<open>\<open>actions?: any[]\<close>: an action is opaque to this file; its JSON text stands for it.\<close>

datatype action = Action string

datatype role = User | Agent

datatype display_mode = Auto | Video | Screenshot

text \<open>\<open>interface Message\<close>. A field declared with \<open>?\<close> is an option.\<close>

record message =
  msg_id :: string
  role :: role
  content :: string
  timestamp :: nat
  steps :: "int option"
  success :: "bool option"
  thinking :: "string list option"
  actions :: "action list option"
  isStreaming :: "bool option"

text \<open>
  Modelled from the spec: \<open>ScreenshotResponse\<close> is declared in \<open>../api\<close>, which is
  not among the sources; section 6 gives
  \<open>{ success, image?(base64), width?, height?, isSensitive?, error? }\<close>.
\<close>

record screenshot_response =
  shot_success :: bool
  shot_image :: "string option"
  shot_width :: "nat option"
  shot_height :: "nat option"
  shot_is_sensitive :: "bool option"
  shot_error :: "string option"

text \<open>\<open>interface DeviceState\<close>; \<open>T | null\<close> is an option.\<close>

record device_state =
  messages :: "message list"
  loading :: bool
  error :: "string option"
  initialized :: bool
  currentStream :: "stream_handle option"
  screenshot :: "screenshot_response option"
  useVideoStream :: bool
  videoStreamFailed :: bool
  displayMode :: display_mode
  tapFeedback :: "string option"

text \<open>
  \<open>Partial<DeviceState>\<close>: each field is either absent (\<open>None\<close>) or carries the new
  value (which for a nullable field may itself be \<open>null\<close>).
\<close>

record device_update =
  messages_u :: "message list option"
  loading_u :: "bool option"
  error_u :: "string option option"
  initialized_u :: "bool option"
  currentStream_u :: "stream_handle option option"
  screenshot_u :: "screenshot_response option option"
  useVideoStream_u :: "bool option"
  videoStreamFailed_u :: "bool option"
  displayMode_u :: "display_mode option"
  tapFeedback_u :: "string option option"

type_synonym store = "device_id \<rightharpoonup> device_state"

text \<open>
  Modelled from the spec: the event types \<open>StepEvent\<close>, \<open>DoneEvent\<close> and
  \<open>ErrorEvent\<close> are declared in \<open>../api\<close>; section 6 gives
  \<open>{ step: int, thinking: string, action: opaque }\<close>, \<open>{ message: string, success: bool }\<close>
  and \<open>{ message: string }\<close>.
\<close>

record step_event =
  ev_step :: int
  ev_thinking :: string
  ev_action :: action

record done_event =
  done_message :: string
  done_success :: bool

record error_event =
  error_message :: string

section \<open>The per-device state store\<close>

text \<open>The literal record that \<open>getCurrentDeviceState\<close> and \<open>updateDeviceState\<close> fall back to.\<close>

definition default_state :: device_state where
  "default_state =
     \<lparr> messages = [], loading = False, error = None, initialized = False,
       currentStream = None, screenshot = None, useVideoStream = True,
       videoStreamFailed = False, displayMode = Auto, tapFeedback = None \<rparr>"

text \<open>The empty object literal \<open>{}\<close> as a partial update.\<close>

definition no_updates :: device_update where
  "no_updates =
     \<lparr> messages_u = None, loading_u = None, error_u = None, initialized_u = None,
       currentStream_u = None, screenshot_u = None, useVideoStream_u = None,
       videoStreamFailed_u = None, displayMode_u = None, tapFeedback_u = None \<rparr>"

text \<open>The object spread \<open>{ ...currentState, ...updates }\<close>.\<close>

definition spread :: "device_state \<Rightarrow> device_update \<Rightarrow> device_state" where
  "spread st u =
     \<lparr> messages = (case messages_u u of None \<Rightarrow> messages st | Some v \<Rightarrow> v),
       loading = (case loading_u u of None \<Rightarrow> loading st | Some v \<Rightarrow> v),
       error = (case error_u u of None \<Rightarrow> error st | Some v \<Rightarrow> v),
       initialized = (case initialized_u u of None \<Rightarrow> initialized st | Some v \<Rightarrow> v),
       currentStream = (case currentStream_u u of None \<Rightarrow> currentStream st | Some v \<Rightarrow> v),
       screenshot = (case screenshot_u u of None \<Rightarrow> screenshot st | Some v \<Rightarrow> v),
       useVideoStream = (case useVideoStream_u u of None \<Rightarrow> useVideoStream st | Some v \<Rightarrow> v),
       videoStreamFailed =
         (case videoStreamFailed_u u of None \<Rightarrow> videoStreamFailed st | Some v \<Rightarrow> v),
       displayMode = (case displayMode_u u of None \<Rightarrow> displayMode st | Some v \<Rightarrow> v),
       tapFeedback = (case tapFeedback_u u of None \<Rightarrow> tapFeedback st | Some v \<Rightarrow> v) \<rparr>"

text \<open>
  \<open>updateDeviceState\<close> (lines 96-117): the updater it queues. \<open>prev\<close> is the map at the
  moment React applies the updater.
\<close>

definition updateDeviceState :: "device_id \<Rightarrow> device_update \<Rightarrow> store \<Rightarrow> store" where
  "updateDeviceState deviceId updates prev =
     (let currentState = (case prev deviceId of None \<Rightarrow> default_state | Some st \<Rightarrow> st)
      in prev(deviceId \<mapsto> spread currentState updates))"

section \<open>The stream callbacks of handleSend\<close>

text \<open>
  The three updaters queued by the callbacks given to \<open>sendMessageStream\<close> (lines
  279-361). \<open>currentDeviceId\<close> and \<open>agentMessageId\<close> are the values captured when the
  send started. The step updater copies the two component-level buffers; their contents
  at the time it runs are its arguments \<open>th\<close> and \<open>ac\<close>. The arrow function given
  to \<open>messages.map\<close> in each updater is the \<open>_message\<close> function before it.
\<close>

definition onStep_message :: "string \<Rightarrow> string list \<Rightarrow> action list \<Rightarrow> int \<Rightarrow> message \<Rightarrow> message" where
  "onStep_message agentMessageId th ac step msg =
     (if msg_id msg = agentMessageId
      then msg\<lparr>thinking := Some th, actions := Some ac, steps := Some step\<rparr>
      else msg)"

definition onStep_updater ::
  "device_id \<Rightarrow> string \<Rightarrow> string list \<Rightarrow> action list \<Rightarrow> int \<Rightarrow> store \<Rightarrow> store" where
  "onStep_updater currentDeviceId agentMessageId th ac step prev =
     (case prev currentDeviceId of
        None \<Rightarrow> prev
      | Some state \<Rightarrow>
          prev(currentDeviceId \<mapsto>
            state\<lparr>messages := map (onStep_message agentMessageId th ac step) (messages state)\<rparr>))"

definition onDone_message :: "string \<Rightarrow> done_event \<Rightarrow> message \<Rightarrow> message" where
  "onDone_message agentMessageId event msg =
     (if msg_id msg = agentMessageId
      then msg\<lparr>content := done_message event, success := Some (done_success event),
               isStreaming := Some False\<rparr>
      else msg)"

definition onDone_updater :: "device_id \<Rightarrow> string \<Rightarrow> done_event \<Rightarrow> store \<Rightarrow> store" where
  "onDone_updater currentDeviceId agentMessageId event prev =
     (case prev currentDeviceId of
        None \<Rightarrow> prev
      | Some state \<Rightarrow>
          prev(currentDeviceId \<mapsto>
            state\<lparr>messages := map (onDone_message agentMessageId event) (messages state),
                  loading := False,
                  currentStream := None\<rparr>))"

text \<open>The template literal's fixed prefix, the UTF-8 bytes of the two Chinese characters for "error", a colon and a space.\<close>

definition error_prefix :: string where
  "error_prefix = [CHR 0xE9, CHR 0x94, CHR 0x99, CHR 0xE8, CHR 0xAF, CHR 0xAF, CHR '':'', CHR '' '']"

definition onError_message :: "string \<Rightarrow> error_event \<Rightarrow> message \<Rightarrow> message" where
  "onError_message agentMessageId event msg =
     (if msg_id msg = agentMessageId
      then msg\<lparr>content := error_prefix @ error_message event, success := Some False,
               isStreaming := Some False\<rparr>
      else msg)"

definition onError_updater :: "device_id \<Rightarrow> string \<Rightarrow> error_event \<Rightarrow> store \<Rightarrow> store" where
  "onError_updater currentDeviceId agentMessageId event prev =
     (case prev currentDeviceId of
        None \<Rightarrow> prev
      | Some state \<Rightarrow>
          prev(currentDeviceId \<mapsto>
            state\<lparr>messages := map (onError_message agentMessageId event) (messages state),
                  loading := False,
                  currentStream := None,
                  error := Some (error_message event)\<rparr>))"

section \<open>The partial updates written at each call site\<close>

text \<open>
  Every call of \<open>updateDeviceState\<close> in the file passes an object literal. They are
  named here after their call site. Values read from the handler's closure (the messages
  of the rendered state, the built messages) are arguments.
\<close>

text \<open>\<open>handleInit\<close>, lines 210 and 213.\<close>

definition init_ok_update :: device_update where
  "init_ok_update = no_updates\<lparr>initialized_u := Some True, error_u := Some None\<rparr>"

definition init_failed_update :: "string \<Rightarrow> device_update" where
  "init_failed_update msg = no_updates\<lparr>error_u := Some (Some msg)\<rparr>"

text \<open>\<open>handleSend\<close>, lines 245, 270 and 365.\<close>

definition send_user_update :: "message list \<Rightarrow> message \<Rightarrow> device_update" where
  "send_user_update rendered userMessage =
     no_updates\<lparr>messages_u := Some (rendered @ [userMessage]),
                loading_u := Some True, error_u := Some None\<rparr>"

definition send_placeholder_update :: "message list \<Rightarrow> message \<Rightarrow> message \<Rightarrow> device_update" where
  "send_placeholder_update rendered userMessage agentMessage =
     no_updates\<lparr>messages_u := Some (rendered @ [userMessage, agentMessage])\<rparr>"

definition save_stream_update :: "stream_handle \<Rightarrow> device_update" where
  "save_stream_update h = no_updates\<lparr>currentStream_u := Some (Some h)\<rparr>"

text \<open>\<open>handleReset\<close>, line 378, and \<open>handleDeviceChange\<close>, line 394.\<close>

definition reset_update :: device_update where
  "reset_update =
     no_updates\<lparr>messages_u := Some [], loading_u := Some False, error_u := Some None,
                currentStream_u := Some None\<rparr>"

definition clear_stream_update :: device_update where
  "clear_stream_update = no_updates\<lparr>currentStream_u := Some None\<rparr>"

text \<open>The three mode buttons (lines 665, 678, 691) and \<open>onFallback\<close> (line 725).\<close>

definition display_mode_update :: "display_mode \<Rightarrow> device_update" where
  "display_mode_update m = no_updates\<lparr>displayMode_u := Some m\<rparr>"

definition fallback_update :: device_update where
  "fallback_update = no_updates\<lparr>videoStreamFailed_u := Some True, useVideoStream_u := Some False\<rparr>"

text \<open>The tap and swipe callbacks and their timers (lines 731-767), and the poll (line 175).\<close>

definition tap_feedback_update :: "string option \<Rightarrow> device_update" where
  "tap_feedback_update fb = no_updates\<lparr>tapFeedback_u := Some fb\<rparr>"

definition screenshot_update :: "screenshot_response \<Rightarrow> device_update" where
  "screenshot_update data = no_updates\<lparr>screenshot_u := Some (Some data)\<rparr>"

section \<open>Every store write of the component\<close>

text \<open>
  One constructor per place where the file calls \<open>setDeviceStates\<close>, directly or
  through \<open>updateDeviceState\<close>. Closure values are arguments and are not constrained, so
  the stores these operations reach from the empty map include every store the
  component can hold.
\<close>

datatype store_op =
    InitOk device_id
  | InitFailed device_id string
  | SendUser device_id "message list" message
  | SendPlaceholder device_id "message list" message message
  | SaveStream device_id stream_handle
  | StepWrite device_id string "string list" "action list" int
  | DoneWrite device_id string done_event
  | ErrorWrite device_id string error_event
  | Reset device_id
  | ClearStream device_id
  | SetDisplayMode device_id display_mode
  | Fallback device_id
  | TapFeedback device_id "string option"
  | StoreScreenshot device_id screenshot_response

fun apply_op :: "store_op \<Rightarrow> store \<Rightarrow> store" where
  "apply_op (InitOk d) s = updateDeviceState d init_ok_update s"
| "apply_op (InitFailed d msg) s = updateDeviceState d (init_failed_update msg) s"
| "apply_op (SendUser d ms um) s = updateDeviceState d (send_user_update ms um) s"
| "apply_op (SendPlaceholder d ms um am) s = updateDeviceState d (send_placeholder_update ms um am) s"
| "apply_op (SaveStream d h) s = updateDeviceState d (save_stream_update h) s"
| "apply_op (StepWrite d mid th ac n) s = onStep_updater d mid th ac n s"
| "apply_op (DoneWrite d mid e) s = onDone_updater d mid e s"
| "apply_op (ErrorWrite d mid e) s = onError_updater d mid e s"
| "apply_op (Reset d) s = updateDeviceState d reset_update s"
| "apply_op (ClearStream d) s = updateDeviceState d clear_stream_update s"
| "apply_op (SetDisplayMode d m) s = updateDeviceState d (display_mode_update m) s"
| "apply_op (Fallback d) s = updateDeviceState d fallback_update s"
| "apply_op (TapFeedback d fb) s = updateDeviceState d (tap_feedback_update fb) s"
| "apply_op (StoreScreenshot d data) s = updateDeviceState d (screenshot_update data) s"

fun run_ops :: "store_op list \<Rightarrow> store \<Rightarrow> store" where
  "run_ops [] s = s"
| "run_ops (op # ops) s = run_ops ops (apply_op op s)"

text \<open>\<open>getCurrentDeviceState\<close> (lines 78-93), for a given selected device.\<close>

definition getDeviceState :: "store \<Rightarrow> device_id \<Rightarrow> device_state" where
  "getDeviceState s d = (case s d of None \<Rightarrow> default_state | Some st \<Rightarrow> st)"

section \<open>The display-mode arbiter\<close>

text \<open>The condition of the polling effect, lines 157-159.\<close>

definition shouldPollScreenshots :: "device_state \<Rightarrow> bool" where
  "shouldPollScreenshots currentState =
     (displayMode currentState = Screenshot \<or>
      (displayMode currentState = Auto \<and> videoStreamFailed currentState))"

text \<open>The effect body up to the point where the timer is set (lines 155-163).\<close>

definition polling_active :: "device_id \<Rightarrow> device_state \<Rightarrow> bool" where
  "polling_active dev currentState = (dev \<noteq> [] \<and> shouldPollScreenshots currentState)"

text \<open>The three-way conditional of the right-hand panel, lines 707-826.\<close>

datatype panel = VideoPlayer | ScreenshotPanel | NoDevicePanel

definition rendered_panel :: "device_id \<Rightarrow> device_state \<Rightarrow> panel" where
  "rendered_panel dev currentState =
     (if dev \<noteq> [] \<and>
         (displayMode currentState = Video \<or>
          (displayMode currentState = Auto \<and> useVideoStream currentState \<and>
           \<not> videoStreamFailed currentState))
      then VideoPlayer
      else if dev \<noteq> [] then ScreenshotPanel
      else NoDevicePanel)"

text \<open>
  The derivation in the words of section 4.3 of the specification, to compare the two
  conditions above with: \<open>video\<close> gives video, \<open>screenshot\<close> gives screenshot, \<open>auto\<close>
  gives video unless \<open>videoStreamFailed\<close>.
\<close>

datatype effective_mode = EffVideo | EffScreenshot

fun spec_effective_mode :: "display_mode \<Rightarrow> bool \<Rightarrow> effective_mode" where
  "spec_effective_mode Video failed = EffVideo"
| "spec_effective_mode Screenshot failed = EffScreenshot"
| "spec_effective_mode Auto failed = (if failed then EffScreenshot else EffVideo)"

section \<open>The component: state cells, refs and handlers\<close>

text \<open>
  An arrow function passed to \<open>setDeviceStates\<close>. React does not run it when it is
  passed: it puts it in a queue and runs the queue, in order, when it next renders. There
  are four kinds in the file: the one \<open>updateDeviceState\<close> builds, and the three of the
  stream callbacks. The one of \<open>onStep\<close> captures \<open>event.step\<close>, but reads
  \<open>currentThinkingRef.current\<close> and \<open>currentActionsRef.current\<close> only when it runs.
\<close>

datatype updater =
    Merge device_id device_update
  | StepUpdater device_id string int
  | DoneUpdater device_id string done_event
  | ErrorUpdater device_id string error_event

text \<open>
  The state of \<open>ChatComponent\<close> that the handlers read and write: the state cells
  \<open>currentDeviceId\<close>, \<open>deviceStates\<close>, \<open>input\<close>, \<open>showConfig\<close>, and the three refs. The
  refs are created once per component by \<open>useRef\<close> (lines 71-75), not once per send or
  per device. \<open>pendingUpdates\<close> is React's queue for the cell \<open>deviceStates\<close>.

  The last two fields belong to the transport, not to the component.
  Modelled from the spec: \<open>sendMessageStream\<close>, the \<open>close()\<close> of the handle it
  returns, and \<open>getScreenshot\<close> are in \<open>../api\<close>, which is not among the sources.
  \<open>closedStreams\<close> is the set of handles on which \<open>close()\<close> has been called,
  \<open>pendingScreenshots\<close> the \<open>getScreenshot\<close> calls that have not settled yet.
\<close>

record chat =
  currentDeviceId :: device_id
  deviceStates :: store
  pendingUpdates :: "updater list"
  input :: string
  showConfig :: bool
  currentThinkingRef :: "string list"
  currentActionsRef :: "action list"
  screenshotFetchingRef :: bool
  closedStreams :: "stream_handle set"
  pendingScreenshots :: "device_id list"

text \<open>The component as mounted (lines 51-75).\<close>

definition chat_init :: chat where
  "chat_init =
     \<lparr> currentDeviceId = [], deviceStates = Map.empty, pendingUpdates = [], input = [],
       showConfig = False, currentThinkingRef = [], currentActionsRef = [],
       screenshotFetchingRef = False, closedStreams = {}, pendingScreenshots = [] \<rparr>"

text \<open>
  \<open>setDeviceStates(f)\<close> puts \<open>f\<close> at the end of the queue. \<open>flush\<close> is React running
  the queue: each updater gets the store the one before it returned, and the step
  updater copies the refs as they are at that moment. React may do so right after the
  call or after any number of further calls, so a run of the component says where it
  happens.
\<close>

definition setDeviceStates :: "updater \<Rightarrow> chat \<Rightarrow> chat" where
  "setDeviceStates f c = c\<lparr>pendingUpdates := pendingUpdates c @ [f]\<rparr>"

fun run_updater :: "string list \<Rightarrow> action list \<Rightarrow> updater \<Rightarrow> store \<Rightarrow> store" where
  "run_updater th ac (Merge d u) prev = updateDeviceState d u prev"
| "run_updater th ac (StepUpdater d mid n) prev = onStep_updater d mid th ac n prev"
| "run_updater th ac (DoneUpdater d mid e) prev = onDone_updater d mid e prev"
| "run_updater th ac (ErrorUpdater d mid e) prev = onError_updater d mid e prev"

fun run_updaters :: "string list \<Rightarrow> action list \<Rightarrow> updater list \<Rightarrow> store \<Rightarrow> store" where
  "run_updaters th ac [] s = s"
| "run_updaters th ac (f # fs) s = run_updaters th ac fs (run_updater th ac f s)"

definition flush :: "chat \<Rightarrow> chat" where
  "flush c =
     c\<lparr>deviceStates :=
         run_updaters (currentThinkingRef c) (currentActionsRef c) (pendingUpdates c) (deviceStates c),
       pendingUpdates := []\<rparr>"

text \<open>
  A handler is created by a render and closes over the values of that render:
  \<open>currentDeviceId\<close>, \<open>input\<close> and \<open>currentState = getCurrentDeviceState()\<close>. Each
  handler below takes the rendered component state \<open>r\<close> it closes over and the live
  state \<open>c\<close> it acts on; they are the same when nothing happened in between.
\<close>

definition getCurrentDeviceState :: "chat \<Rightarrow> device_state" where
  "getCurrentDeviceState r = getDeviceState (deviceStates r) (currentDeviceId r)"

text \<open>
  \<open>handleInit\<close> (lines 198-220) after \<open>initAgent\<close> has settled. \<open>InitRejected msg\<close>
  carries the text the catch block shows (\<open>error.message\<close> or the fixed fallback text).
\<close>

datatype init_outcome = InitResolved | InitRejected string

fun handleInit :: "device_id \<Rightarrow> init_outcome \<Rightarrow> chat \<Rightarrow> chat" where
  "handleInit deviceId InitResolved c =
     (setDeviceStates (Merge deviceId init_ok_update) c)\<lparr>showConfig := False\<rparr>"
| "handleInit deviceId (InitRejected msg) c =
     setDeviceStates (Merge deviceId (init_failed_update msg)) c"

text \<open>
  \<open>String.prototype.trim\<close>. A string is held here as the bytes of its UTF-8 encoding
  (as \<open>error_prefix\<close> is). \<open>trim\<close> removes, from both ends, every code point that
  ECMAScript counts as white space or as a line terminator: U+0009 to U+000D, U+0020,
  U+00A0, U+1680, U+2000 to U+200A, U+2028, U+2029, U+202F, U+205F, U+3000 and U+FEFF.
  \<open>white_space\<close> lists their encodings.
\<close>

definition white_space :: "string list" where
  "white_space =
     [[CHR 0x09], [CHR 0x0A], [CHR 0x0B], [CHR 0x0C], [CHR 0x0D], [CHR 0x20],
      [CHR 0xC2, CHR 0xA0],
      [CHR 0xE1, CHR 0x9A, CHR 0x80],
      [CHR 0xE2, CHR 0x80, CHR 0x80], [CHR 0xE2, CHR 0x80, CHR 0x81],
      [CHR 0xE2, CHR 0x80, CHR 0x82], [CHR 0xE2, CHR 0x80, CHR 0x83],
      [CHR 0xE2, CHR 0x80, CHR 0x84], [CHR 0xE2, CHR 0x80, CHR 0x85],
      [CHR 0xE2, CHR 0x80, CHR 0x86], [CHR 0xE2, CHR 0x80, CHR 0x87],
      [CHR 0xE2, CHR 0x80, CHR 0x88], [CHR 0xE2, CHR 0x80, CHR 0x89],
      [CHR 0xE2, CHR 0x80, CHR 0x8A],
      [CHR 0xE2, CHR 0x80, CHR 0xA8], [CHR 0xE2, CHR 0x80, CHR 0xA9],
      [CHR 0xE2, CHR 0x80, CHR 0xAF],
      [CHR 0xE2, CHR 0x81, CHR 0x9F],
      [CHR 0xE3, CHR 0x80, CHR 0x80],
      [CHR 0xEF, CHR 0xBB, CHR 0xBF]]"

text \<open>
  \<open>strip ws str\<close> removes from the front of \<open>str\<close> every leading occurrence of a
  member of \<open>ws\<close>, until none is left.
\<close>

function strip :: "string list \<Rightarrow> string \<Rightarrow> string" where
  "strip ws str =
     (case find (\<lambda>w. w \<noteq> [] \<and> take (length w) str = w) ws of
        None \<Rightarrow> str
      | Some w \<Rightarrow> strip ws (drop (length w) str))"
  by pat_completeness auto
termination
proof (relation "measure (\<lambda>(ws, str). length str)")
  show "wf (measure (\<lambda>(ws, str). length str))"
    by simp
next
  fix ws :: "string list" and str w :: string
  assume "find (\<lambda>w. w \<noteq> [] \<and> take (length w) str = w) ws = Some w"
  then have nonempty: "w \<noteq> []" and front: "take (length w) str = w"
    by (auto simp: find_Some_iff)
  from nonempty have pos: "0 < length w"
    by simp
  from front have le: "length w \<le> length str"
    by (metis length_take min.cobounded1)
  from pos le have "length str - length w < length str"
    by arith
  then show "((ws, drop (length w) str), (ws, str)) \<in> measure (\<lambda>(ws, str). length str)"
    by simp
qed

declare strip.simps [simp del]

definition trim :: "string \<Rightarrow> string" where
  "trim str = rev (strip (map rev white_space) (rev (strip white_space str)))"

text \<open>\<open>Number.prototype.toString\<close> on a non-negative integer: its decimal digits.\<close>

definition digit_char :: "nat \<Rightarrow> char" where
  "digit_char n = ''0123456789'' ! n"

function toString :: "nat \<Rightarrow> string" where
  "toString n = (if n < 10 then [digit_char n] else toString (n div 10) @ [digit_char (n mod 10)])"
  by pat_completeness auto
termination
  by (relation "measure (\<lambda>n. n)") auto

declare toString.simps [simp del]

text \<open>
  What \<open>handleSend\<close> reads from outside while it runs: the two \<open>Date.now()\<close>, the two
  \<open>new Date()\<close>, and the handle that \<open>sendMessageStream\<close> returns.
\<close>

record send_env =
  now_user :: nat
  date_user :: nat
  now_agent :: nat
  date_agent :: nat
  stream :: stream_handle

definition userMessage :: "chat \<Rightarrow> send_env \<Rightarrow> message" where
  "userMessage r env =
     \<lparr> msg_id = toString (now_user env), role = User, content = trim (input r),
       timestamp = date_user env, steps = None, success = None, thinking = None,
       actions = None, isStreaming = None \<rparr>"

definition agentMessageId :: "send_env \<Rightarrow> string" where
  "agentMessageId env = toString (now_agent env + 1)"

definition agentMessage :: "send_env \<Rightarrow> message" where
  "agentMessage env =
     \<lparr> msg_id = agentMessageId env, role = Agent, content = [],
       timestamp = date_agent env, steps = None, success = None, thinking = Some [],
       actions = Some [], isStreaming = Some True \<rparr>"

text \<open>
  \<open>handleSend\<close> (lines 223-366) has one suspension point, \<open>await handleInit\<close>
  (line 234). \<open>handleSend_start\<close> is the part before it: the two guards and the test
  that decides whether to initialise first. All three read the rendered state.
\<close>

datatype send_start = Returned | Alerted | AwaitInit | Continue

definition handleSend_start :: "chat \<Rightarrow> send_start" where
  "handleSend_start r =
     (if trim (input r) = [] \<or> loading (getCurrentDeviceState r) then Returned
      else if currentDeviceId r = [] then Alerted
      else if \<not> initialized (getCurrentDeviceState r) then AwaitInit
      else Continue)"

text \<open>
  \<open>handleSend_resume\<close> is the part after it (lines 237-365), which runs without
  suspension, in the order of the source: the first \<open>updateDeviceState\<close>,
  \<open>setInput('')\<close>, the two refs replaced by empty arrays, the second
  \<open>updateDeviceState\<close>, \<open>sendMessageStream\<close>, the third \<open>updateDeviceState\<close>. The
  message lists of the first two updates are built from \<open>currentState.messages\<close>, that
  is from \<open>r\<close>.
\<close>

definition handleSend_resume :: "chat \<Rightarrow> send_env \<Rightarrow> chat \<Rightarrow> chat" where
  "handleSend_resume r env c =
     (let dev = currentDeviceId r;
          rendered = messages (getCurrentDeviceState r);
          c1 = setDeviceStates (Merge dev (send_user_update rendered (userMessage r env))) c;
          c2 = c1\<lparr>input := [], currentThinkingRef := [], currentActionsRef := []\<rparr>;
          c3 = setDeviceStates
                 (Merge dev (send_placeholder_update rendered (userMessage r env) (agentMessage env))) c2
      in setDeviceStates (Merge dev (save_stream_update (stream env))) c3)"

text \<open>The whole handler when nothing else runs during the await.\<close>

definition handleSend :: "chat \<Rightarrow> init_outcome \<Rightarrow> send_env \<Rightarrow> chat \<Rightarrow> chat" where
  "handleSend r outcome env c =
     (case handleSend_start r of
        Returned \<Rightarrow> c
      | Alerted \<Rightarrow> c
      | AwaitInit \<Rightarrow> handleSend_resume r env (handleInit (currentDeviceId r) outcome c)
      | Continue \<Rightarrow> handleSend_resume r env c)"

text \<open>
  The three callbacks (lines 279-361) of the send that captured \<open>dev\<close> and \<open>mid\<close>.
  \<open>onStep\<close> pushes onto the two refs and then passes its updater to
  \<open>setDeviceStates\<close>; the updater copies the refs when \<open>flush\<close> runs it.
\<close>

definition onStep :: "device_id \<Rightarrow> string \<Rightarrow> step_event \<Rightarrow> chat \<Rightarrow> chat" where
  "onStep dev mid event c =
     setDeviceStates (StepUpdater dev mid (ev_step event))
       (c\<lparr>currentThinkingRef := currentThinkingRef c @ [ev_thinking event],
          currentActionsRef := currentActionsRef c @ [ev_action event]\<rparr>)"

definition onDone :: "device_id \<Rightarrow> string \<Rightarrow> done_event \<Rightarrow> chat \<Rightarrow> chat" where
  "onDone dev mid event c = setDeviceStates (DoneUpdater dev mid event) c"

definition onError :: "device_id \<Rightarrow> string \<Rightarrow> error_event \<Rightarrow> chat \<Rightarrow> chat" where
  "onError dev mid event c = setDeviceStates (ErrorUpdater dev mid event) c"

text \<open>
  \<open>handleReset\<close> (lines 369-387) up to its await; \<open>resetChat\<close> writes nothing here.
  \<open>handleDeviceChange\<close> (lines 390-398).
\<close>

definition handleReset :: "chat \<Rightarrow> chat \<Rightarrow> chat" where
  "handleReset r c =
     (if currentDeviceId r = [] then c
      else setDeviceStates (Merge (currentDeviceId r) reset_update)
             (c\<lparr>closedStreams :=
                  (case currentStream (getCurrentDeviceState r) of
                     None \<Rightarrow> closedStreams c
                   | Some h \<Rightarrow> insert h (closedStreams c))\<rparr>))"

definition handleDeviceChange :: "chat \<Rightarrow> device_id \<Rightarrow> chat \<Rightarrow> chat" where
  "handleDeviceChange r deviceId c =
     (case currentStream (getCurrentDeviceState r) of
        None \<Rightarrow> c\<lparr>currentDeviceId := deviceId\<rparr>
      | Some h \<Rightarrow>
          (setDeviceStates (Merge (currentDeviceId r) clear_stream_update)
             (c\<lparr>closedStreams := insert h (closedStreams c)\<rparr>))\<lparr>currentDeviceId := deviceId\<rparr>)"

section \<open>The transport's side of a stream\<close>

datatype stream_event = StepEvent step_event | DoneEvent done_event | ErrorEvent error_event

fun dispatch :: "device_id \<Rightarrow> string \<Rightarrow> stream_event \<Rightarrow> chat \<Rightarrow> chat" where
  "dispatch dev mid (StepEvent e) c = onStep dev mid e c"
| "dispatch dev mid (DoneEvent e) c = onDone dev mid e c"
| "dispatch dev mid (ErrorEvent e) c = onError dev mid e c"

text \<open>
  Modelled from the spec: how \<open>sendMessageStream\<close> in \<open>../api\<close> treats an event that
  arrives for handle \<open>h\<close>. Section 4.2: closing the handle must stop further event
  delivery; otherwise the event goes to the callback of its kind.
\<close>

definition deliver :: "stream_handle \<Rightarrow> device_id \<Rightarrow> string \<Rightarrow> stream_event \<Rightarrow> chat \<Rightarrow> chat" where
  "deliver h dev mid ev c = (if h \<in> closedStreams c then c else dispatch dev mid ev c)"

fun deliver_all :: "stream_handle \<Rightarrow> device_id \<Rightarrow> string \<Rightarrow> stream_event list \<Rightarrow> chat \<Rightarrow> chat" where
  "deliver_all h dev mid [] c = c"
| "deliver_all h dev mid (ev # evs) c = deliver_all h dev mid evs (deliver h dev mid ev c)"

section \<open>Screenshot polling\<close>

text \<open>
  \<open>fetchScreenshot\<close> (lines 165-182) is called by the effect and by its 500 ms timer,
  with the device id of the effect. It has one suspension point, \<open>await getScreenshot\<close>.
  \<open>fetchScreenshot_start\<close> is the part before it, \<open>fetchScreenshot_settle\<close> the part
  after it, for a call that is pending: the promise resolves with a response, or rejects
  and the catch block logs.
\<close>

definition fetchScreenshot_start :: "device_id \<Rightarrow> chat \<Rightarrow> chat" where
  "fetchScreenshot_start dev c =
     (if screenshotFetchingRef c then c
      else c\<lparr>screenshotFetchingRef := True,
             pendingScreenshots := pendingScreenshots c @ [dev]\<rparr>)"

datatype fetch_outcome = FetchResolved screenshot_response | FetchRejected

definition fetchScreenshot_settle :: "device_id \<Rightarrow> fetch_outcome \<Rightarrow> chat \<Rightarrow> chat" where
  "fetchScreenshot_settle dev outcome c =
     (if dev \<notin> set (pendingScreenshots c) then c
      else (case outcome of
              FetchResolved data \<Rightarrow>
                if shot_success data
                then setDeviceStates (Merge dev (screenshot_update data)) c
                else c
            | FetchRejected \<Rightarrow> c)
           \<lparr>screenshotFetchingRef := False,
            pendingScreenshots := remove1 dev (pendingScreenshots c)\<rparr>)"

datatype poll_event = Tick device_id | Settle device_id fetch_outcome

fun poll_step :: "poll_event \<Rightarrow> chat \<Rightarrow> chat" where
  "poll_step (Tick dev) c = fetchScreenshot_start dev c"
| "poll_step (Settle dev outcome) c = fetchScreenshot_settle dev outcome c"

fun poll_run :: "poll_event list \<Rightarrow> chat \<Rightarrow> chat" where
  "poll_run [] c = c"
| "poll_run (e # es) c = poll_run es (poll_step e c)"

section \<open>Observations, interleavings and concrete runs\<close>

text \<open>The messages of a device that carry a given id, in the order of the list.\<close>

definition placeholders :: "store \<Rightarrow> device_id \<Rightarrow> string \<Rightarrow> message list" where
  "placeholders s dev mid = filter (\<lambda>m. msg_id m = mid) (messages (getDeviceState s dev))"

text \<open>
  The messages a device would have if React ran the queue now and the refs held \<open>th\<close>
  and \<open>ac\<close>.
\<close>

definition messages_if_flushed :: "device_id \<Rightarrow> string list \<Rightarrow> action list \<Rightarrow> chat \<Rightarrow> message list" where
  "messages_if_flushed dev th ac c =
     messages (getDeviceState (run_updaters th ac (pendingUpdates c) (deviceStates c)) dev)"

text \<open>
  What may happen while one send is streaming and no other send runs: a step event of
  the send itself, an \<open>updateDeviceState\<close> on some device, or React running the queue.
  \<open>leaves_messages dev\<close> holds of a run whose updates are on other devices or, on
  \<open>dev\<close> itself, do not name \<open>messages\<close>.
\<close>

datatype send_item = OwnStep step_event | OtherUpdate device_id device_update | Render

fun run_send :: "device_id \<Rightarrow> string \<Rightarrow> send_item list \<Rightarrow> chat \<Rightarrow> chat" where
  "run_send dev mid [] c = c"
| "run_send dev mid (OwnStep e # tr) c = run_send dev mid tr (onStep dev mid e c)"
| "run_send dev mid (OtherUpdate d u # tr) c = run_send dev mid tr (setDeviceStates (Merge d u) c)"
| "run_send dev mid (Render # tr) c = run_send dev mid tr (flush c)"

fun own_steps :: "send_item list \<Rightarrow> step_event list" where
  "own_steps [] = []"
| "own_steps (OwnStep e # tr) = e # own_steps tr"
| "own_steps (OtherUpdate d u # tr) = own_steps tr"
| "own_steps (Render # tr) = own_steps tr"

fun leaves_messages :: "device_id \<Rightarrow> send_item list \<Rightarrow> bool" where
  "leaves_messages dev [] = True"
| "leaves_messages dev (OwnStep e # tr) = leaves_messages dev tr"
| "leaves_messages dev (OtherUpdate d u # tr) =
     ((d \<noteq> dev \<or> messages_u u = None) \<and> leaves_messages dev tr)"
| "leaves_messages dev (Render # tr) = leaves_messages dev tr"

text \<open>Two sends and three step events, used as concrete inputs below.\<close>

definition first_env :: send_env where
  "first_env = \<lparr> now_user = 1000, date_user = 1000, now_agent = 1000, date_agent = 1000, stream = 1 \<rparr>"

definition second_env :: send_env where
  "second_env = \<lparr> now_user = 2000, date_user = 2000, now_agent = 2000, date_agent = 2000, stream = 2 \<rparr>"

definition step1 :: step_event where
  "step1 = \<lparr> ev_step = 1, ev_thinking = ''t1'', ev_action = Action ''a1'' \<rparr>"

definition step2 :: step_event where
  "step2 = \<lparr> ev_step = 2, ev_thinking = ''t2'', ev_action = Action ''a2'' \<rparr>"

definition other_step :: step_event where
  "other_step = \<lparr> ev_step = 1, ev_thinking = ''x1'', ev_action = Action ''b1'' \<rparr>"

text \<open>
  In the runs below React renders (\<open>flush\<close>) after each handler or callback has
  returned.

  Send pressed twice on a device that is not initialised yet. Device \<open>D1\<close> is selected,
  a text is typed, nothing is in the store. Both presses run \<open>handleSend\<close> from the
  same render and both wait for \<open>initAgent\<close>; then the first resumes and runs to its
  end, then the second.
\<close>

definition twice_render :: chat where
  "twice_render = chat_init\<lparr>currentDeviceId := ''D1'', input := ''hi''\<rparr>"

definition once_sent :: chat where
  "once_sent =
     flush (handleSend_resume twice_render first_env (handleInit ''D1'' InitResolved twice_render))"

definition twice_sent :: chat where
  "twice_sent =
     flush (handleSend_resume twice_render second_env (handleInit ''D1'' InitResolved once_sent))"

text \<open>
  Two devices. \<open>D1\<close> is initialised, \<open>D2\<close> is selected and is not. Send is pressed on
  \<open>D2\<close> and waits for \<open>initAgent\<close>. Meanwhile the user selects \<open>D1\<close> and presses
  Send there; its stream (handle 1) delivers a first step. Then the send on \<open>D2\<close>
  resumes and opens handle 2. Then handle 1, which nobody closed, delivers a second
  step, and handle 2 delivers its first.
\<close>

definition cross_render2 :: chat where
  "cross_render2 =
     (flush (handleInit ''D1'' InitResolved chat_init))\<lparr>currentDeviceId := ''D2'', input := ''hi''\<rparr>"

definition cross_render1 :: chat where
  "cross_render1 = handleDeviceChange cross_render2 ''D1'' cross_render2"

definition cross_first_step :: chat where
  "cross_first_step =
     flush (deliver 1 ''D1'' (agentMessageId first_env) (StepEvent step1)
       (flush (handleSend_resume cross_render1 first_env cross_render1)))"

definition cross_second_step :: chat where
  "cross_second_step =
     flush (deliver 1 ''D1'' (agentMessageId first_env) (StepEvent step2)
       (flush (handleSend_resume cross_render2 second_env
          (handleInit ''D2'' InitResolved cross_first_step))))"

definition cross_third_step :: chat where
  "cross_third_step =
     flush (deliver 2 ''D2'' (agentMessageId second_env) (StepEvent other_step) cross_second_step)"

text \<open>
  One send on an initialised device: a step, the done event, and then one more step
  event for the same send.
\<close>

definition late_render :: chat where
  "late_render =
     (flush (handleInit ''D1'' InitResolved chat_init))\<lparr>currentDeviceId := ''D1'', input := ''hi''\<rparr>"

definition streaming :: chat where
  "streaming = flush (handleSend_resume late_render first_env late_render)"

definition late_done :: chat where
  "late_done =
     flush (onDone ''D1'' (agentMessageId first_env) \<lparr>done_message = ''Done'', done_success = True\<rparr>
       (flush (onStep ''D1'' (agentMessageId first_env) step1 streaming)))"

definition late_step :: chat where
  "late_step = flush (onStep ''D1'' (agentMessageId first_env) step2 late_done)"

section \<open>Shared facts about the store\<close>

lemmas update_defs = init_ok_update_def init_failed_update_def send_user_update_def
  send_placeholder_update_def save_stream_update_def reset_update_def clear_stream_update_def
  display_mode_update_def fallback_update_def tap_feedback_update_def screenshot_update_def

lemma updateDeviceState_same:
  "updateDeviceState d u s d = Some (spread (getDeviceState s d) u)"
  by (simp add: updateDeviceState_def getDeviceState_def)

lemma updateDeviceState_other:
  "d' \<noteq> d \<Longrightarrow> updateDeviceState d u s d' = s d'"
  by (simp add: updateDeviceState_def)

lemma getDeviceState_update_same:
  "getDeviceState (updateDeviceState d u s) d = spread (getDeviceState s d) u"
  by (simp add: updateDeviceState_def getDeviceState_def)

lemma getDeviceState_update_other:
  "d' \<noteq> d \<Longrightarrow> getDeviceState (updateDeviceState d u s) d' = getDeviceState s d'"
  by (simp add: updateDeviceState_def getDeviceState_def)

text \<open>
  No operation writes one of the two video flags without the other: the relation
  \<open>useVideoStream = (\<not> videoStreamFailed)\<close> of the default record is kept.
\<close>

lemma apply_op_flags:
  assumes "\<And>st. s d = Some st \<Longrightarrow> useVideoStream st = (\<not> videoStreamFailed st)"
    and "apply_op op s d = Some st'"
  shows "useVideoStream st' = (\<not> videoStreamFailed st')"
  using assms
  by (cases op)
     (auto simp: updateDeviceState_def spread_def no_updates_def default_state_def update_defs
        onStep_updater_def onDone_updater_def onError_updater_def
        split: option.splits if_splits)

lemma run_ops_flags:
  assumes "\<And>d st. s d = Some st \<Longrightarrow> useVideoStream st = (\<not> videoStreamFailed st)"
    and "run_ops ops s d = Some st'"
  shows "useVideoStream st' = (\<not> videoStreamFailed st')"
  using assms
proof (induction ops arbitrary: s d st')
  case Nil
  then show ?case by simp
next
  case (Cons op ops)
  show ?case
  proof (rule Cons.IH [where s = "apply_op op s" and d = d])
    show "run_ops ops (apply_op op s) d = Some st'"
      using Cons.prems(2) by simp
  next
    fix d0 st0
    assume "apply_op op s d0 = Some st0"
    then show "useVideoStream st0 = (\<not> videoStreamFailed st0)"
      using apply_op_flags [of s d0 op st0] Cons.prems(1) by blast
  qed
qed

lemma reachable_flags:
  "useVideoStream (getDeviceState (run_ops ops Map.empty) d) =
     (\<not> videoStreamFailed (getDeviceState (run_ops ops Map.empty) d))"
proof (cases "run_ops ops Map.empty d")
  case None
  then show ?thesis by (simp add: getDeviceState_def default_state_def)
next
  case (Some st)
  then have "useVideoStream st = (\<not> videoStreamFailed st)"
    using run_ops_flags [of Map.empty ops d st] by simp
  with Some show ?thesis by (simp add: getDeviceState_def)
qed

lemma apply_op_failed_sticky:
  assumes "s d = Some st" and "videoStreamFailed st"
  shows "\<exists>st'. apply_op op s d = Some st' \<and> videoStreamFailed st'"
  using assms
  by (cases op)
     (auto simp: updateDeviceState_def spread_def no_updates_def default_state_def update_defs
        onStep_updater_def onDone_updater_def onError_updater_def
        split: option.splits if_splits)

lemma run_ops_failed_sticky:
  assumes "s d = Some st" and "videoStreamFailed st"
  shows "\<exists>st'. run_ops ops s d = Some st' \<and> videoStreamFailed st'"
  using assms
proof (induction ops arbitrary: s st)
  case Nil
  then show ?case by simp
next
  case (Cons op ops)
  obtain st1 where st1: "apply_op op s d = Some st1" "videoStreamFailed st1"
    using apply_op_failed_sticky [of s d st op] Cons.prems by blast
  show ?case
    using Cons.IH [of "apply_op op s" st1] st1 by simp
qed

text \<open>React's queue.\<close>

lemma run_updaters_append:
  "run_updaters th ac (fs @ gs) s = run_updaters th ac gs (run_updaters th ac fs s)"
  by (induction fs arbitrary: s) simp_all

lemma flush_setDeviceStates:
  "deviceStates (flush (setDeviceStates f c)) =
     run_updater (currentThinkingRef c) (currentActionsRef c) f (deviceStates (flush c))"
  by (simp add: flush_def setDeviceStates_def run_updaters_append)

lemma flush_empty_queue:
  "pendingUpdates c = [] \<Longrightarrow> deviceStates (flush c) = deviceStates c"
  by (simp add: flush_def)

text \<open>The three functions given to \<open>messages.map\<close>.\<close>

lemma msg_id_onStep_message [simp]: "msg_id (onStep_message mid th ac n m) = msg_id m"
  by (simp add: onStep_message_def)

lemma msg_id_onDone_message [simp]: "msg_id (onDone_message mid e m) = msg_id m"
  by (simp add: onDone_message_def)

lemma msg_id_onError_message [simp]: "msg_id (onError_message mid e m) = msg_id m"
  by (simp add: onError_message_def)

lemma onDone_message_hit:
  "msg_id m = mid \<Longrightarrow>
     content (onDone_message mid e m) = done_message e \<and>
     success (onDone_message mid e m) = Some (done_success e) \<and>
     isStreaming (onDone_message mid e m) = Some False"
  by (simp add: onDone_message_def)

lemma onError_message_hit:
  "msg_id m = mid \<Longrightarrow>
     content (onError_message mid e m) = error_prefix @ error_message e \<and>
     success (onError_message mid e m) = Some False \<and>
     isStreaming (onError_message mid e m) = Some False"
  by (simp add: onError_message_def)

lemma onStep_message_hit:
  "msg_id m = mid \<Longrightarrow>
     thinking (onStep_message mid th ac n m) = Some th \<and>
     actions (onStep_message mid th ac n m) = Some ac \<and>
     steps (onStep_message mid th ac n m) = Some n"
  by (simp add: onStep_message_def)

lemma onStep_message_keeps:
  "content (onStep_message mid th ac n m) = content m \<and>
   success (onStep_message mid th ac n m) = success m \<and>
   isStreaming (onStep_message mid th ac n m) = isStreaming m"
  by (simp add: onStep_message_def)

lemma onStep_message_twice:
  "onStep_message mid th2 ac2 n2 (onStep_message mid th1 ac1 n1 m) = onStep_message mid th2 ac2 n2 m"
  by (simp add: onStep_message_def)

lemma onStep_message_twice_comp:
  "onStep_message mid th2 ac2 n2 \<circ> onStep_message mid th1 ac1 n1 = onStep_message mid th2 ac2 n2"
  by (rule ext) (simp add: onStep_message_twice)

lemma messages_spread_unnamed:
  "messages_u u = None \<Longrightarrow> messages (spread st u) = messages st"
  by (simp add: spread_def)

lemma onStep_message_miss:
  "msg_id m \<noteq> mid \<Longrightarrow> onStep_message mid th ac n m = m"
  by (simp add: onStep_message_def)

section \<open>Handlers write the store only through the listed operations\<close>

text \<open>
  What each handler adds to the store once React has run the queue, as store
  operations. \<open>handleSend\<close> and \<open>onStep\<close> change the refs, so what was already in the
  queue is run with the new contents.
\<close>

lemma handlers_are_store_ops:
  "deviceStates (flush (handleInit d InitResolved c)) = run_ops [InitOk d] (deviceStates (flush c))"
  "deviceStates (flush (handleInit d (InitRejected msg) c)) =
     run_ops [InitFailed d msg] (deviceStates (flush c))"
  "deviceStates (flush (handleSend_resume r env c)) =
     run_ops [SendUser (currentDeviceId r) (messages (getCurrentDeviceState r)) (userMessage r env),
              SendPlaceholder (currentDeviceId r) (messages (getCurrentDeviceState r))
                (userMessage r env) (agentMessage env),
              SaveStream (currentDeviceId r) (stream env)]
       (run_updaters [] [] (pendingUpdates c) (deviceStates c))"
  "deviceStates (flush (onStep dev mid e c)) =
     run_ops [StepWrite dev mid (currentThinkingRef c @ [ev_thinking e])
                (currentActionsRef c @ [ev_action e]) (ev_step e)]
       (run_updaters (currentThinkingRef c @ [ev_thinking e]) (currentActionsRef c @ [ev_action e])
          (pendingUpdates c) (deviceStates c))"
  "deviceStates (flush (onDone dev mid de c)) = run_ops [DoneWrite dev mid de] (deviceStates (flush c))"
  "deviceStates (flush (onError dev mid ee c)) = run_ops [ErrorWrite dev mid ee] (deviceStates (flush c))"
  "deviceStates (flush (handleReset r c)) =
     run_ops (if currentDeviceId r = [] then [] else [Reset (currentDeviceId r)])
       (deviceStates (flush c))"
  "deviceStates (flush (handleDeviceChange r d2 c)) =
     run_ops (case currentStream (getCurrentDeviceState r) of
                None \<Rightarrow> [] | Some h \<Rightarrow> [ClearStream (currentDeviceId r)]) (deviceStates (flush c))"
  "deviceStates (flush (fetchScreenshot_start dev c)) = deviceStates (flush c)"
  "deviceStates (flush (fetchScreenshot_settle dev FetchRejected c)) = deviceStates (flush c)"
  "deviceStates (flush (fetchScreenshot_settle dev (FetchResolved data) c)) =
     run_ops (if dev \<in> set (pendingScreenshots c) \<and> shot_success data
              then [StoreScreenshot dev data] else []) (deviceStates (flush c))"
  by (simp_all add: handleSend_resume_def onStep_def onDone_def onError_def handleReset_def
        handleDeviceChange_def fetchScreenshot_start_def fetchScreenshot_settle_def Let_def
        flush_def setDeviceStates_def run_updaters_append
        split: option.split)

section \<open>Two sends from one render\<close>

text \<open>
  Claim C1 at a concrete input. Send is pressed twice on \<open>D1\<close> while the first
  \<open>initAgent\<close> is pending; both presses pass the guards of the same render. When the
  first send has run, the device holds its user message and placeholder (ids 1000 and
  1001). When the second has run, the device holds only the messages of the second
  send: both of its message lists were built from the messages of the render, not from
  the store the updates were applied to. The first placeholder is gone although its
  stream (handle 1) was never closed, and the device's stream handle is that of the
  second send.
\<close>

theorem double_send_loses_first:
  "handleSend_start twice_render = AwaitInit \<and>
   map msg_id (messages (getDeviceState (deviceStates once_sent) ''D1'')) = [''1000'', ''1001''] \<and>
   map msg_id (messages (getDeviceState (deviceStates twice_sent) ''D1'')) = [''2000'', ''2001''] \<and>
   placeholders (deviceStates twice_sent) ''D1'' (agentMessageId first_env) = [] \<and>
   currentStream (getDeviceState (deviceStates twice_sent) ''D1'') = Some 2 \<and>
   1 \<notin> closedStreams twice_sent"
  by code_simp

text \<open>
  When the render is the current state, the queue is empty and nothing runs during the
  await, the send appends its two messages to the messages of the store.
\<close>

lemma handleSend_current_render:
  assumes "handleSend_start c = AwaitInit \<or> handleSend_start c = Continue"
    and "pendingUpdates c = []"
  shows "messages (getDeviceState (deviceStates (flush (handleSend c outcome env c)))
                     (currentDeviceId c)) =
           messages (getDeviceState (deviceStates c) (currentDeviceId c)) @
             [userMessage c env, agentMessage env]"
  using assms
  by (cases outcome)
     (auto simp: handleSend_def handleSend_resume_def Let_def getDeviceState_update_same
        getCurrentDeviceState_def spread_def send_user_update_def send_placeholder_update_def
        save_stream_update_def no_updates_def flush_def setDeviceStates_def)

text \<open>
  What does hold of the store: a partial update is merged into the record the store holds
  when the updater is applied, so every field it does not name keeps the value of that
  store, whatever was written to it since the handler's render.
\<close>

lemma update_keeps_unnamed_fields:
  "getDeviceState (updateDeviceState d (send_placeholder_update rendered um am) s) d =
     (getDeviceState s d)\<lparr>messages := rendered @ [um, am]\<rparr>"
  by (simp add: getDeviceState_update_same spread_def send_placeholder_update_def no_updates_def)

section \<open>Steps of overlapping sends\<close>

text \<open>
  Claim C2 at a concrete input. Send is pressed on \<open>D2\<close>, which is not initialised, and
  waits for \<open>initAgent\<close>; the user selects \<open>D1\<close> and presses Send there (both presses
  pass the guards of their renders). The send on \<open>D1\<close> is delivered \<open>step1\<close>; the
  send on \<open>D2\<close> resumes and empties the two refs; the send on \<open>D1\<close> is delivered
  \<open>step2\<close> on its handle, which is still open. Its placeholder then holds the thinking
  and the action of \<open>step2\<close> only, not those of both steps. The first step of the send
  on \<open>D2\<close> then puts the thinking of \<open>step2\<close> in front of its own in the placeholder
  of \<open>D2\<close>: the buffers are shared by the two sends.
\<close>

theorem overlapping_sends_mix_steps:
  "handleSend_start cross_render2 = AwaitInit \<and>
   handleSend_start cross_render1 = Continue \<and>
   1 \<notin> closedStreams cross_third_step \<and>
   2 \<notin> closedStreams cross_third_step \<and>
   map thinking (placeholders (deviceStates cross_first_step) ''D1'' (agentMessageId first_env))
     = [Some [''t1'']] \<and>
   map thinking (placeholders (deviceStates cross_second_step) ''D1'' (agentMessageId first_env))
     = [Some [''t2'']] \<and>
   map actions (placeholders (deviceStates cross_second_step) ''D1'' (agentMessageId first_env))
     = [Some [Action ''a2'']] \<and>
   map thinking (placeholders (deviceStates cross_second_step) ''D1'' (agentMessageId first_env))
     \<noteq> [Some (map ev_thinking [step1, step2])] \<and>
   map thinking (placeholders (deviceStates cross_third_step) ''D2'' (agentMessageId second_env))
     = [Some [''t2'', ''x1'']] \<and>
   map thinking (placeholders (deviceStates cross_third_step) ''D2'' (agentMessageId second_env))
     \<noteq> [Some (map ev_thinking [other_step])]"
  by code_simp

text \<open>
  The step updater copies the refs when React runs it, not when \<open>onStep\<close> is called:
  if the send on \<open>D2\<close> resumes after \<open>step1\<close> has been delivered and before React
  has run the queue, the placeholder of \<open>D1\<close> gets the emptied buffer.
\<close>

lemma step_updater_copies_refs_when_run:
  "map thinking
     (placeholders
        (deviceStates
           (flush (handleSend_resume cross_render2 second_env
              (handleInit ''D2'' InitResolved
                 (deliver 1 ''D1'' (agentMessageId first_env) (StepEvent step1)
                    (flush (handleSend_resume cross_render1 first_env cross_render1)))))))
        ''D1'' (agentMessageId first_env))
     = [Some []]"
  by code_simp

text \<open>
  What the code does give. Suppose that after \<open>handleSend\<close> has run for a send only
  this happens, in any order and number: step events of that send, \<open>updateDeviceState\<close>
  calls on other devices (or on the same device, if they do not name \<open>messages\<close>), and
  React running the queue at any points. Then, once the queue has been run, the
  placeholder, the last message of the device, has as thinking and actions exactly the
  delivered values in order, and as steps the step count of the last event; the refs
  hold the same two lists; every message with another id is the one \<open>handleSend\<close>
  wrote.
\<close>

lemma messages_step_updater:
  "messages (getDeviceState (onStep_updater dev mid th ac n s) dev) =
     map (onStep_message mid th ac n) (messages (getDeviceState s dev))"
  by (cases "s dev") (simp_all add: onStep_updater_def getDeviceState_def default_state_def)

lemma messages_merge_updater:
  "d \<noteq> dev \<or> messages_u u = None \<Longrightarrow>
     messages (getDeviceState (updateDeviceState d u s) dev) = messages (getDeviceState s dev)"
  by (cases "d = dev")
     (simp_all add: getDeviceState_update_same getDeviceState_update_other messages_spread_unnamed)

lemma messages_if_flushed_flush:
  "messages_if_flushed dev th ac (flush c) =
     messages_if_flushed dev (currentThinkingRef c) (currentActionsRef c) c"
  by (simp add: messages_if_flushed_def flush_def)

lemma messages_if_flushed_onStep:
  "messages_if_flushed dev th ac (onStep dev mid e c) =
     map (onStep_message mid th ac (ev_step e)) (messages_if_flushed dev th ac c)"
  by (simp add: messages_if_flushed_def onStep_def setDeviceStates_def run_updaters_append
        messages_step_updater)

lemma messages_if_flushed_merge:
  "d \<noteq> dev \<or> messages_u u = None \<Longrightarrow>
     messages_if_flushed dev th ac (setDeviceStates (Merge d u) c) = messages_if_flushed dev th ac c"
  by (simp add: messages_if_flushed_def setDeviceStates_def run_updaters_append
        messages_merge_updater)

lemma messages_if_flushed_handleSend_resume:
  "messages_if_flushed (currentDeviceId r) th ac (handleSend_resume r env c) =
     messages (getCurrentDeviceState r) @ [userMessage r env, agentMessage env]"
  by (simp add: messages_if_flushed_def handleSend_resume_def Let_def setDeviceStates_def
        run_updaters_append getDeviceState_update_same spread_def send_user_update_def
        send_placeholder_update_def save_stream_update_def no_updates_def)

lemma onStep_message_blank:
  assumes "map (onStep_message mid [] [] 0) xs = map (onStep_message mid [] [] 0) ys"
  shows "map (onStep_message mid th ac n) xs = map (onStep_message mid th ac n) ys"
proof -
  have "map (onStep_message mid th ac n) zs =
          map (onStep_message mid th ac n) (map (onStep_message mid [] [] 0) zs)" for zs
    by (simp add: onStep_message_twice)
  then show ?thesis
    using assms by metis
qed

lemma run_send_accumulates:
  assumes "leaves_messages dev tr"
    and "currentThinkingRef c = map ev_thinking past"
    and "currentActionsRef c = map ev_action past"
    and "\<And>th ac. map (onStep_message mid [] [] 0) (messages_if_flushed dev th ac c) =
                   map (onStep_message mid [] [] 0) sent"
    and "messages_if_flushed dev (currentThinkingRef c) (currentActionsRef c) c =
           (if past = [] then sent
            else map (onStep_message mid (map ev_thinking past) (map ev_action past)
                        (ev_step (last past))) sent)"
    and "c2 = run_send dev mid tr c" and "evs = past @ own_steps tr"
  shows "currentThinkingRef c2 = map ev_thinking evs \<and>
         currentActionsRef c2 = map ev_action evs \<and>
         messages_if_flushed dev (currentThinkingRef c2) (currentActionsRef c2) c2 =
           (if evs = [] then sent
            else map (onStep_message mid (map ev_thinking evs) (map ev_action evs)
                        (ev_step (last evs))) sent)"
  using assms
proof (induction tr arbitrary: c past)
  case Nil
  then show ?case by simp
next
  case (Cons x tr)
  show ?case
  proof (cases x)
    case (OwnStep e)
    let ?c1 = "onStep dev mid e c" and ?past1 = "past @ [e]"
    have th1: "currentThinkingRef ?c1 = map ev_thinking ?past1"
      and ac1: "currentActionsRef ?c1 = map ev_action ?past1"
      using Cons.prems(2,3) by (simp_all add: onStep_def setDeviceStates_def)
    have blank1: "map (onStep_message mid [] [] 0) (messages_if_flushed dev th ac ?c1) =
                    map (onStep_message mid [] [] 0) sent" for th ac
      using Cons.prems(4) [of th ac]
      by (simp add: messages_if_flushed_onStep onStep_message_twice_comp)
    have fresh1: "messages_if_flushed dev (currentThinkingRef ?c1) (currentActionsRef ?c1) ?c1 =
                    (if ?past1 = [] then sent
                     else map (onStep_message mid (map ev_thinking ?past1) (map ev_action ?past1)
                                 (ev_step (last ?past1))) sent)"
      unfolding th1 ac1
      using onStep_message_blank [OF Cons.prems(4) [of "map ev_thinking ?past1" "map ev_action ?past1"],
              of "map ev_thinking ?past1" "map ev_action ?past1" "ev_step e"]
      by (simp add: messages_if_flushed_onStep)
    show ?thesis
    proof (rule Cons.IH [of ?c1 ?past1])
      show "leaves_messages dev tr" using Cons.prems(1) OwnStep by simp
      show "currentThinkingRef ?c1 = map ev_thinking ?past1" by (rule th1)
      show "currentActionsRef ?c1 = map ev_action ?past1" by (rule ac1)
      show "map (onStep_message mid [] [] 0) (messages_if_flushed dev th ac ?c1) =
              map (onStep_message mid [] [] 0) sent" for th ac by (rule blank1)
      show "messages_if_flushed dev (currentThinkingRef ?c1) (currentActionsRef ?c1) ?c1 =
              (if ?past1 = [] then sent
               else map (onStep_message mid (map ev_thinking ?past1) (map ev_action ?past1)
                           (ev_step (last ?past1))) sent)" by (rule fresh1)
      show "c2 = run_send dev mid tr ?c1" using Cons.prems(6) OwnStep by simp
      show "evs = ?past1 @ own_steps tr" using Cons.prems(7) OwnStep by simp
    qed
  next
    case (OtherUpdate d u)
    let ?c1 = "setDeviceStates (Merge d u) c"
    have side: "d \<noteq> dev \<or> messages_u u = None"
      using Cons.prems(1) OtherUpdate by simp
    have refs1: "currentThinkingRef ?c1 = currentThinkingRef c"
                "currentActionsRef ?c1 = currentActionsRef c"
      by (simp_all add: setDeviceStates_def)
    show ?thesis
    proof (rule Cons.IH [of ?c1 past])
      show "leaves_messages dev tr" using Cons.prems(1) OtherUpdate by simp
      show "currentThinkingRef ?c1 = map ev_thinking past" using Cons.prems(2) refs1 by simp
      show "currentActionsRef ?c1 = map ev_action past" using Cons.prems(3) refs1 by simp
      show "map (onStep_message mid [] [] 0) (messages_if_flushed dev th ac ?c1) =
              map (onStep_message mid [] [] 0) sent" for th ac
        using Cons.prems(4) [of th ac] side by (simp add: messages_if_flushed_merge)
      show "messages_if_flushed dev (currentThinkingRef ?c1) (currentActionsRef ?c1) ?c1 =
              (if past = [] then sent
               else map (onStep_message mid (map ev_thinking past) (map ev_action past)
                           (ev_step (last past))) sent)"
        using Cons.prems(5) side refs1 by (simp add: messages_if_flushed_merge)
      show "c2 = run_send dev mid tr ?c1" using Cons.prems(6) OtherUpdate by simp
      show "evs = past @ own_steps tr" using Cons.prems(7) OtherUpdate by simp
    qed
  next
    case Render
    let ?c1 = "flush c"
    have refs1: "currentThinkingRef ?c1 = currentThinkingRef c"
                "currentActionsRef ?c1 = currentActionsRef c"
      by (simp_all add: flush_def)
    show ?thesis
    proof (rule Cons.IH [of ?c1 past])
      show "leaves_messages dev tr" using Cons.prems(1) Render by simp
      show "currentThinkingRef ?c1 = map ev_thinking past" using Cons.prems(2) refs1 by simp
      show "currentActionsRef ?c1 = map ev_action past" using Cons.prems(3) refs1 by simp
      show "map (onStep_message mid [] [] 0) (messages_if_flushed dev th ac ?c1) =
              map (onStep_message mid [] [] 0) sent" for th ac
        using Cons.prems(4) [of "currentThinkingRef c" "currentActionsRef c"]
        by (simp add: messages_if_flushed_flush)
      show "messages_if_flushed dev (currentThinkingRef ?c1) (currentActionsRef ?c1) ?c1 =
              (if past = [] then sent
               else map (onStep_message mid (map ev_thinking past) (map ev_action past)
                           (ev_step (last past))) sent)"
        using Cons.prems(5) by (simp add: messages_if_flushed_flush)
      show "c2 = run_send dev mid tr ?c1" using Cons.prems(6) Render by simp
      show "evs = past @ own_steps tr" using Cons.prems(7) Render by simp
    qed
  qed
qed

lemma steps_accumulate_in_order:
  assumes "leaves_messages (currentDeviceId r) tr"
    and "c2 = flush (run_send (currentDeviceId r) (agentMessageId env) tr (handleSend_resume r env c))"
    and "sent = messages (getCurrentDeviceState r) @ [userMessage r env, agentMessage env]"
  shows "currentThinkingRef c2 = map ev_thinking (own_steps tr) \<and>
         currentActionsRef c2 = map ev_action (own_steps tr) \<and>
         (\<exists>st. deviceStates c2 (currentDeviceId r) = Some st \<and>
            length (messages st) = length sent \<and>
            msg_id (last (messages st)) = agentMessageId env \<and>
            thinking (last (messages st)) = Some (map ev_thinking (own_steps tr)) \<and>
            actions (last (messages st)) = Some (map ev_action (own_steps tr)) \<and>
            (own_steps tr \<noteq> [] \<longrightarrow>
               steps (last (messages st)) = Some (ev_step (last (own_steps tr)))) \<and>
            (\<forall>i < length sent. msg_id (sent ! i) \<noteq> agentMessageId env \<longrightarrow>
               messages st ! i = sent ! i))"
proof -
  let ?dev = "currentDeviceId r" and ?mid = "agentMessageId env"
  let ?c1 = "handleSend_resume r env c"
  let ?c = "run_send ?dev ?mid tr ?c1"
  have refs0: "currentThinkingRef ?c1 = map ev_thinking []" "currentActionsRef ?c1 = map ev_action []"
    by (simp_all add: handleSend_resume_def Let_def setDeviceStates_def)
  have sent0: "messages_if_flushed ?dev th ac ?c1 = sent" for th ac
    using assms(3) by (simp add: messages_if_flushed_handleSend_resume)
  have blank0: "map (onStep_message ?mid [] [] 0) (messages_if_flushed ?dev th ac ?c1) =
                  map (onStep_message ?mid [] [] 0) sent" for th ac
    by (simp add: sent0)
  have fresh0: "messages_if_flushed ?dev (currentThinkingRef ?c1) (currentActionsRef ?c1) ?c1 =
                  (if ([] :: step_event list) = [] then sent
                   else map (onStep_message ?mid (map ev_thinking []) (map ev_action [])
                               (ev_step (last []))) sent)"
    by (simp add: sent0)
  have run: "currentThinkingRef ?c = map ev_thinking (own_steps tr) \<and>
             currentActionsRef ?c = map ev_action (own_steps tr) \<and>
             messages_if_flushed ?dev (currentThinkingRef ?c) (currentActionsRef ?c) ?c =
               (if own_steps tr = [] then sent
                else map (onStep_message ?mid (map ev_thinking (own_steps tr))
                            (map ev_action (own_steps tr)) (ev_step (last (own_steps tr)))) sent)"
    using run_send_accumulates [OF assms(1) refs0 blank0 fresh0 refl refl]
    by auto
  have run_th: "currentThinkingRef ?c = map ev_thinking (own_steps tr)"
    and run_ac: "currentActionsRef ?c = map ev_action (own_steps tr)"
    and run_ms: "messages_if_flushed ?dev (currentThinkingRef ?c) (currentActionsRef ?c) ?c =
               (if own_steps tr = [] then sent
                else map (onStep_message ?mid (map ev_thinking (own_steps tr))
                            (map ev_action (own_steps tr)) (ev_step (last (own_steps tr)))) sent)"
    using run by blast+
  have th: "currentThinkingRef c2 = map ev_thinking (own_steps tr)"
    and ac: "currentActionsRef c2 = map ev_action (own_steps tr)"
    using run_th run_ac assms(2) by (simp_all add: flush_def)
  define ms where "ms = messages (getDeviceState (deviceStates c2) ?dev)"
  have "ms = messages_if_flushed ?dev (currentThinkingRef ?c) (currentActionsRef ?c) ?c"
    by (simp add: ms_def assms(2) messages_if_flushed_def flush_def)
  with run_ms
  have ms: "ms = (if own_steps tr = [] then sent
                  else map (onStep_message ?mid (map ev_thinking (own_steps tr))
                              (map ev_action (own_steps tr)) (ev_step (last (own_steps tr)))) sent)"
    by simp
  have last_sent: "last sent = agentMessage env" and ne: "sent \<noteq> []"
    using assms(3) by simp_all
  have "ms \<noteq> []"
    using ms ne by simp
  then obtain st where st: "deviceStates c2 ?dev = Some st" and mst: "messages st = ms"
    by (cases "deviceStates c2 ?dev") (simp_all add: ms_def getDeviceState_def default_state_def)
  have len: "length (messages st) = length sent"
    using ms mst by simp
  have lastm: "last (messages st) =
                 (if own_steps tr = [] then agentMessage env
                  else onStep_message ?mid (map ev_thinking (own_steps tr))
                         (map ev_action (own_steps tr)) (ev_step (last (own_steps tr)))
                         (agentMessage env))"
    using ms mst ne last_sent by (simp add: last_map)
  have p1: "msg_id (last (messages st)) = ?mid"
    using lastm by (simp add: agentMessage_def)
  have p2: "thinking (last (messages st)) = Some (map ev_thinking (own_steps tr))"
    using lastm by (simp add: agentMessage_def onStep_message_def)
  have p3: "actions (last (messages st)) = Some (map ev_action (own_steps tr))"
    using lastm by (simp add: agentMessage_def onStep_message_def)
  have p4: "own_steps tr \<noteq> [] \<longrightarrow>
              steps (last (messages st)) = Some (ev_step (last (own_steps tr)))"
    using lastm by (simp add: agentMessage_def onStep_message_def)
  have p5: "\<forall>i < length sent. msg_id (sent ! i) \<noteq> ?mid \<longrightarrow> messages st ! i = sent ! i"
    using ms mst by (simp add: onStep_message_miss)
  from th ac st len p1 p2 p3 p4 p5 show ?thesis
    by blast
qed

lemma steps_accumulate_in_order_example:
  "leaves_messages (currentDeviceId late_render)
     [OwnStep step1, OtherUpdate ''D2'' fallback_update, OwnStep step2, Render,
      OtherUpdate ''D1'' (tap_feedback_update (Some ''Tap executed''))] \<and>
   (\<exists>st. deviceStates
            (flush (run_send (currentDeviceId late_render) (agentMessageId first_env)
               [OwnStep step1, OtherUpdate ''D2'' fallback_update, OwnStep step2, Render,
                OtherUpdate ''D1'' (tap_feedback_update (Some ''Tap executed''))]
               (handleSend_resume late_render first_env late_render)))
            (currentDeviceId late_render) = Some st \<and>
          thinking (last (messages st)) = Some [''t1'', ''t2''] \<and>
          actions (last (messages st)) = Some [Action ''a1'', Action ''a2''] \<and>
          steps (last (messages st)) = Some 2)"
proof -
  have pre: "leaves_messages (currentDeviceId late_render)
     [OwnStep step1, OtherUpdate ''D2'' fallback_update, OwnStep step2, Render,
      OtherUpdate ''D1'' (tap_feedback_update (Some ''Tap executed''))]"
    by code_simp
  show ?thesis
    using pre steps_accumulate_in_order [OF pre refl refl, of first_env late_render]
    by (auto simp: step1_def step2_def)
qed

section \<open>A closed stream\<close>

lemma deliver_all_closed:
  "h \<in> closedStreams c \<Longrightarrow> deliver_all h dev mid evs c = c"
  by (induction evs) (simp_all add: deliver_def)

text \<open>
  Claim C3. If the rendered state of the selected device holds stream handle \<open>h\<close>,
  then \<open>handleReset\<close> and \<open>handleDeviceChange\<close> close \<open>h\<close> and, once React has run the
  queue, leave the device's record without a stream handle. From then on, in any state
  in which \<open>h\<close> is closed, step, done and error events that arrive on \<open>h\<close>, in any
  number, change nothing: neither the store (messages, loading, error, currentStream of
  every device), nor the queue of updates, nor the refs.
\<close>

theorem closed_stream_is_inert:
  assumes "currentStream (getCurrentDeviceState r) = Some h"
    and "(currentDeviceId r \<noteq> [] \<and> c' = handleReset r c) \<or> c' = handleDeviceChange r d2 c"
  shows "h \<in> closedStreams c' \<and>
         currentStream (getDeviceState (deviceStates (flush c')) (currentDeviceId r)) = None \<and>
         deliver_all h dev mid evs c' = c' \<and>
         (\<forall>c2. h \<in> closedStreams c2 \<longrightarrow> deliver_all h dev mid evs c2 = c2)"
proof -
  have closed: "h \<in> closedStreams c'"
    using assms by (auto simp: handleReset_def handleDeviceChange_def setDeviceStates_def)
  have cleared: "currentStream (getDeviceState (deviceStates (flush c')) (currentDeviceId r)) = None"
    using assms
    by (auto simp: handleReset_def handleDeviceChange_def setDeviceStates_def flush_def
          run_updaters_append getDeviceState_update_same
          spread_def reset_update_def clear_stream_update_def no_updates_def)
  from closed cleared show ?thesis
    by (simp add: deliver_all_closed)
qed

theorem closed_stream_is_inert_witness:
  "currentStream (getCurrentDeviceState streaming) = Some 1 \<and>
   1 \<in> closedStreams (handleDeviceChange streaming ''D2'' streaming) \<and>
   deliver_all 1 ''D1'' (agentMessageId first_env)
       [StepEvent step1, DoneEvent \<lparr>done_message = ''Done'', done_success = True\<rparr>,
        ErrorEvent \<lparr>error_message = ''lost''\<rparr>]
       (handleDeviceChange streaming ''D2'' streaming)
     = handleDeviceChange streaming ''D2'' streaming"
proof -
  have pre: "currentStream (getCurrentDeviceState streaming) = Some 1"
    by code_simp
  show ?thesis
    using pre closed_stream_is_inert [OF pre disjI2 [OF refl], of "''D2''" streaming "''D1''"
        "agentMessageId first_env"
        "[StepEvent step1, DoneEvent \<lparr>done_message = ''Done'', done_success = True\<rparr>,
          ErrorEvent \<lparr>error_message = ''lost''\<rparr>]"]
    by simp
qed

section \<open>Isolation between devices\<close>

text \<open>
  Claim C4. Updating device \<open>A\<close> through \<open>updateDeviceState\<close>, or through any of the
  three stream callbacks of a send on \<open>A\<close>, leaves the entry of every other device
  \<open>B\<close> in the new store exactly as it was (absent stays absent).
\<close>

theorem update_isolation:
  "A \<noteq> B \<Longrightarrow>
     updateDeviceState A u s B = s B \<and>
     onStep_updater A mid th ac n s B = s B \<and>
     onDone_updater A mid de s B = s B \<and>
     onError_updater A mid ee s B = s B"
  by (simp add: updateDeviceState_def onStep_updater_def onDone_updater_def
        onError_updater_def Let_def split: option.split)

theorem update_isolation_witness:
  "''D1'' \<noteq> ''D2'' \<and>
   updateDeviceState ''D1'' (no_updates\<lparr>loading_u := Some True\<rparr>)
       [''D1'' \<mapsto> default_state, ''D2'' \<mapsto> default_state\<lparr>initialized := True\<rparr>] ''D2''
     = Some (default_state\<lparr>initialized := True\<rparr>) \<and>
   onDone_updater ''D1'' ''7'' \<lparr>done_message = ''ok'', done_success = True\<rparr>
       [''D1'' \<mapsto> default_state, ''D2'' \<mapsto> default_state\<lparr>initialized := True\<rparr>] ''D2''
     = Some (default_state\<lparr>initialized := True\<rparr>)"
  using update_isolation [of "''D1''" "''D2''" "no_updates\<lparr>loading_u := Some True\<rparr>"
      "[''D1'' \<mapsto> default_state, ''D2'' \<mapsto> default_state\<lparr>initialized := True\<rparr>]"
      "''7''" "[]" "[]" 0 "\<lparr>done_message = ''ok'', done_success = True\<rparr>"
      "\<lparr>error_message = ''x''\<rparr>"]
  by simp

section \<open>Done, error, and a step that comes late\<close>

text \<open>
  Claim C5, as amended. Let the store hold a record for the device. After \<open>onDone\<close>
  the device has \<open>loading = false\<close> and no stream handle, and every message with the
  placeholder id has the event's \<open>message\<close> as content, the event's \<open>success\<close>, and
  \<open>isStreaming = false\<close>. After \<open>onError\<close> the same holds with content the fixed
  prefix followed by the event's message and \<open>success = false\<close>, and the device's
  \<open>error\<close> is the event's message. A step event applied to a store, in particular one
  delivered after done or error, leaves \<open>loading\<close>, \<open>currentStream\<close> and \<open>error\<close>
  of the device and the id, content, success and isStreaming of every message as they
  were; it still writes thinking, actions and steps of the messages with the
  placeholder id.
\<close>

theorem done_and_error_complete:
  assumes "s dev = Some st"
  shows "(\<exists>st'. onDone_updater dev mid de s dev = Some st' \<and>
            \<not> loading st' \<and> currentStream st' = None \<and>
            map msg_id (messages st') = map msg_id (messages st) \<and>
            (\<forall>m \<in> set (messages st'). msg_id m = mid \<longrightarrow>
               content m = done_message de \<and> success m = Some (done_success de) \<and>
               isStreaming m = Some False)) \<and>
         (\<exists>st'. onError_updater dev mid ee s dev = Some st' \<and>
            \<not> loading st' \<and> currentStream st' = None \<and> error st' = Some (error_message ee) \<and>
            map msg_id (messages st') = map msg_id (messages st) \<and>
            (\<forall>m \<in> set (messages st'). msg_id m = mid \<longrightarrow>
               content m = error_prefix @ error_message ee \<and> success m = Some False \<and>
               isStreaming m = Some False)) \<and>
         (\<exists>st'. onStep_updater dev mid th ac n s dev = Some st' \<and>
            loading st' = loading st \<and> currentStream st' = currentStream st \<and>
            error st' = error st \<and>
            map msg_id (messages st') = map msg_id (messages st) \<and>
            map content (messages st') = map content (messages st) \<and>
            map success (messages st') = map success (messages st) \<and>
            map isStreaming (messages st') = map isStreaming (messages st) \<and>
            (\<forall>m \<in> set (messages st'). msg_id m = mid \<longrightarrow>
               thinking m = Some th \<and> actions m = Some ac \<and> steps m = Some n))"
proof -
  have done_eq: "onDone_updater dev mid de s dev =
      Some (st\<lparr>messages := map (onDone_message mid de) (messages st),
               loading := False, currentStream := None\<rparr>)"
    using assms by (simp add: onDone_updater_def)
  have fin: "\<exists>st'. onDone_updater dev mid de s dev = Some st' \<and>
            \<not> loading st' \<and> currentStream st' = None \<and>
            map msg_id (messages st') = map msg_id (messages st) \<and>
            (\<forall>m \<in> set (messages st'). msg_id m = mid \<longrightarrow>
               content m = done_message de \<and> success m = Some (done_success de) \<and>
               isStreaming m = Some False)"
    unfolding done_eq by (simp add: onDone_message_hit)
  have error_eq: "onError_updater dev mid ee s dev =
      Some (st\<lparr>messages := map (onError_message mid ee) (messages st),
               loading := False, currentStream := None, error := Some (error_message ee)\<rparr>)"
    using assms by (simp add: onError_updater_def)
  have err: "\<exists>st'. onError_updater dev mid ee s dev = Some st' \<and>
            \<not> loading st' \<and> currentStream st' = None \<and> error st' = Some (error_message ee) \<and>
            map msg_id (messages st') = map msg_id (messages st) \<and>
            (\<forall>m \<in> set (messages st'). msg_id m = mid \<longrightarrow>
               content m = error_prefix @ error_message ee \<and> success m = Some False \<and>
               isStreaming m = Some False)"
    unfolding error_eq by (simp add: onError_message_hit)
  have step_eq: "onStep_updater dev mid th ac n s dev =
      Some (st\<lparr>messages := map (onStep_message mid th ac n) (messages st)\<rparr>)"
    using assms by (simp add: onStep_updater_def)
  have late: "\<exists>st'. onStep_updater dev mid th ac n s dev = Some st' \<and>
            loading st' = loading st \<and> currentStream st' = currentStream st \<and>
            error st' = error st \<and>
            map msg_id (messages st') = map msg_id (messages st) \<and>
            map content (messages st') = map content (messages st) \<and>
            map success (messages st') = map success (messages st) \<and>
            map isStreaming (messages st') = map isStreaming (messages st) \<and>
            (\<forall>m \<in> set (messages st'). msg_id m = mid \<longrightarrow>
               thinking m = Some th \<and> actions m = Some ac \<and> steps m = Some n)"
    unfolding step_eq by (simp add: onStep_message_keeps onStep_message_hit)
  show ?thesis
    by (rule conjI [OF fin conjI [OF err late]])
qed

theorem done_and_error_complete_witness:
  "deviceStates streaming ''D1'' = Some (getDeviceState (deviceStates streaming) ''D1'') \<and>
   (\<exists>st'. onDone_updater ''D1'' (agentMessageId first_env)
            \<lparr>done_message = ''Done'', done_success = True\<rparr> (deviceStates streaming) ''D1'' = Some st' \<and>
          \<not> loading st' \<and> currentStream st' = None) \<and>
   (\<exists>st'. onError_updater ''D1'' (agentMessageId first_env)
            \<lparr>error_message = ''lost''\<rparr> (deviceStates streaming) ''D1'' = Some st' \<and>
          \<not> loading st' \<and> error st' = Some ''lost'')"
proof -
  have pre: "deviceStates streaming ''D1'' = Some (getDeviceState (deviceStates streaming) ''D1'')"
    by code_simp
  show ?thesis
    using pre done_and_error_complete
        [of "deviceStates streaming" "''D1''" "getDeviceState (deviceStates streaming) ''D1''"
            "agentMessageId first_env" "\<lparr>done_message = ''Done'', done_success = True\<rparr>"
            "\<lparr>error_message = ''lost''\<rparr>" "[]" "[]" 0]
    by auto
qed

text \<open>
  The claim as first stated fails in its last part: in the run \<open>late_done\<close> the
  placeholder is finished with one thinking entry; the step event delivered afterwards
  (\<open>late_step\<close>) gives it a second one and overwrites its step count.
\<close>

theorem late_step_counterexample:
  "map isStreaming (placeholders (deviceStates late_done) ''D1'' (agentMessageId first_env)) = [Some False] \<and>
   map thinking (placeholders (deviceStates late_done) ''D1'' (agentMessageId first_env)) = [Some [''t1'']] \<and>
   map steps (placeholders (deviceStates late_done) ''D1'' (agentMessageId first_env)) = [Some 1] \<and>
   map thinking (placeholders (deviceStates late_step) ''D1'' (agentMessageId first_env))
     = [Some [''t1'', ''t2'']] \<and>
   map steps (placeholders (deviceStates late_step) ''D1'' (agentMessageId first_env)) = [Some 2] \<and>
   placeholders (deviceStates late_step) ''D1'' (agentMessageId first_env)
     \<noteq> placeholders (deviceStates late_done) ''D1'' (agentMessageId first_env)"
  by code_simp

section \<open>The sticky fallback flag\<close>

text \<open>
  Claim C6. After the fallback signal for device \<open>d\<close>, whatever operations follow (on
  any device, in any number and order), the record of \<open>d\<close> still has
  \<open>videoStreamFailed = true\<close>; whenever its \<open>displayMode\<close> is \<open>auto\<close>, the panel does
  not render the video player and the polling condition holds. Leaving \<open>auto\<close> and
  coming back is one such sequence of operations.
\<close>

theorem fallback_is_sticky:
  "\<exists>st. run_ops ops (apply_op (Fallback d) s) d = Some st \<and>
        videoStreamFailed st \<and>
        (displayMode st = Auto \<longrightarrow>
           rendered_panel dev st \<noteq> VideoPlayer \<and> shouldPollScreenshots st \<and>
           spec_effective_mode (displayMode st) (videoStreamFailed st) = EffScreenshot)"
proof -
  obtain st0 where st0: "apply_op (Fallback d) s d = Some st0" "videoStreamFailed st0"
    by (simp add: updateDeviceState_same spread_def fallback_update_def no_updates_def)
  obtain st where st: "run_ops ops (apply_op (Fallback d) s) d = Some st" "videoStreamFailed st"
    using run_ops_failed_sticky [of "apply_op (Fallback d) s" d st0 ops] st0 by blast
  then show ?thesis
    by (simp add: rendered_panel_def shouldPollScreenshots_def)
qed

theorem fallback_is_sticky_witness:
  "\<exists>st. run_ops [SetDisplayMode ''D1'' Video, Reset ''D1'', SetDisplayMode ''D1'' Auto]
            (apply_op (Fallback ''D1'') Map.empty) ''D1'' = Some st \<and>
        videoStreamFailed st \<and> displayMode st = Auto \<and>
        rendered_panel ''D1'' st = ScreenshotPanel \<and> shouldPollScreenshots st"
  using fallback_is_sticky
    [of "[SetDisplayMode ''D1'' Video, Reset ''D1'', SetDisplayMode ''D1'' Auto]" "''D1''"
        Map.empty "''D1''"]
  by (simp add: updateDeviceState_def spread_def no_updates_def default_state_def update_defs
        rendered_panel_def shouldPollScreenshots_def)

section \<open>The effective display mode\<close>

text \<open>
  Claim C7. For the state of the selected device in any store the component can hold,
  the panel that is rendered and the polling condition are given by \<open>displayMode\<close> and
  \<open>videoStreamFailed\<close> alone, through the derivation of the specification: \<open>video\<close>
  renders the player, \<open>screenshot\<close> renders the screenshot panel and polls, \<open>auto\<close>
  renders the player unless \<open>videoStreamFailed\<close>, in which case it renders the
  screenshot panel and polls.
\<close>

theorem effective_mode_agrees:
  "dev \<noteq> [] \<Longrightarrow> st = getDeviceState (run_ops ops Map.empty) dev \<Longrightarrow>
     rendered_panel dev st =
       (case spec_effective_mode (displayMode st) (videoStreamFailed st) of
          EffVideo \<Rightarrow> VideoPlayer | EffScreenshot \<Rightarrow> ScreenshotPanel) \<and>
     polling_active dev st =
       (spec_effective_mode (displayMode st) (videoStreamFailed st) = EffScreenshot) \<and>
     spec_effective_mode Video (videoStreamFailed st) = EffVideo \<and>
     spec_effective_mode Screenshot (videoStreamFailed st) = EffScreenshot \<and>
     spec_effective_mode Auto (videoStreamFailed st) =
       (if videoStreamFailed st then EffScreenshot else EffVideo)"
  using reachable_flags [of ops dev]
  by (cases "displayMode st")
     (auto simp: rendered_panel_def polling_active_def shouldPollScreenshots_def)

theorem effective_mode_agrees_witness:
  "''D1'' \<noteq> [] \<and>
   rendered_panel ''D1'' (getDeviceState (run_ops [Fallback ''D1''] Map.empty) ''D1'') = ScreenshotPanel \<and>
   polling_active ''D1'' (getDeviceState (run_ops [Fallback ''D1''] Map.empty) ''D1'') \<and>
   rendered_panel ''D1'' (getDeviceState (run_ops [] Map.empty) ''D1'') = VideoPlayer \<and>
   \<not> polling_active ''D1'' (getDeviceState (run_ops [] Map.empty) ''D1'')"
  using effective_mode_agrees [of "''D1''" _ "[Fallback ''D1'']", OF _ refl]
    effective_mode_agrees [of "''D1''" _ "[]", OF _ refl]
  by (simp add: updateDeviceState_def spread_def no_updates_def default_state_def update_defs
        getDeviceState_def)

section \<open>Screenshot polling: one fetch at a time\<close>

lemma poll_step_single:
  assumes "length (pendingScreenshots c) \<le> 1"
    and "screenshotFetchingRef c = (pendingScreenshots c \<noteq> [])"
  shows "length (pendingScreenshots (poll_step e c)) \<le> 1 \<and>
         screenshotFetchingRef (poll_step e c) = (pendingScreenshots (poll_step e c) \<noteq> [])"
proof (cases e)
  case (Tick dev)
  with assms show ?thesis
    by (simp add: fetchScreenshot_start_def)
next
  case (Settle dev outcome)
  show ?thesis
  proof (cases "dev \<in> set (pendingScreenshots c)")
    case False
    with Settle assms show ?thesis
      by (simp add: fetchScreenshot_settle_def)
  next
    case True
    with assms(1) have "pendingScreenshots c = [dev]"
      by (cases "pendingScreenshots c") auto
    with Settle show ?thesis
      by (simp add: fetchScreenshot_settle_def)
  qed
qed

lemma poll_run_single:
  assumes "length (pendingScreenshots c) \<le> 1"
    and "screenshotFetchingRef c = (pendingScreenshots c \<noteq> [])"
  shows "length (pendingScreenshots (poll_run es c)) \<le> 1 \<and>
         screenshotFetchingRef (poll_run es c) = (pendingScreenshots (poll_run es c) \<noteq> [])"
  using assms
proof (induction es arbitrary: c)
  case Nil
  then show ?case by simp
next
  case (Cons e es)
  have "length (pendingScreenshots (poll_step e c)) \<le> 1 \<and>
        screenshotFetchingRef (poll_step e c) = (pendingScreenshots (poll_step e c) \<noteq> [])"
    using poll_step_single [of c e] Cons.prems by simp
  then show ?case
    using Cons.IH [of "poll_step e c"] by simp
qed

text \<open>
  Claim C8. Start from a component with the guard ref clear and no \<open>getScreenshot\<close>
  call pending, and let ticks (for any devices) and settlements happen in any order.
  Then at most one call is pending at any time; while one is pending a tick changes
  nothing at all; a call that resolves with \<open>success\<close> stores its response as the
  device's screenshot (once React has run the queue); a call that resolves without
  \<open>success\<close>, or rejects, leaves the store and the queue of updates, and so the
  previous screenshot, as they were.
\<close>

theorem polling_single_flight:
  assumes "\<not> screenshotFetchingRef c0" and "pendingScreenshots c0 = []"
    and "c = poll_run es c0"
  shows "length (pendingScreenshots c) \<le> 1 \<and>
         (pendingScreenshots c \<noteq> [] \<longrightarrow> fetchScreenshot_start dev c = c) \<and>
         (dev \<in> set (pendingScreenshots c) \<and> shot_success data \<longrightarrow>
            screenshot (getDeviceState
              (deviceStates (flush (fetchScreenshot_settle dev (FetchResolved data) c))) dev)
              = Some data) \<and>
         (\<not> shot_success data \<longrightarrow>
            deviceStates (fetchScreenshot_settle dev (FetchResolved data) c) = deviceStates c \<and>
            pendingUpdates (fetchScreenshot_settle dev (FetchResolved data) c) = pendingUpdates c) \<and>
         deviceStates (fetchScreenshot_settle dev FetchRejected c) = deviceStates c \<and>
         pendingUpdates (fetchScreenshot_settle dev FetchRejected c) = pendingUpdates c"
proof -
  have inv: "length (pendingScreenshots c) \<le> 1 \<and>
             screenshotFetchingRef c = (pendingScreenshots c \<noteq> [])"
    using poll_run_single [of c0 es] assms by simp
  have noop: "pendingScreenshots c \<noteq> [] \<longrightarrow> fetchScreenshot_start dev c = c"
    using inv by (simp add: fetchScreenshot_start_def)
  have ok: "dev \<in> set (pendingScreenshots c) \<and> shot_success data \<longrightarrow>
            screenshot (getDeviceState
              (deviceStates (flush (fetchScreenshot_settle dev (FetchResolved data) c))) dev)
              = Some data"
    by (simp add: fetchScreenshot_settle_def flush_def setDeviceStates_def run_updaters_append
          getDeviceState_update_same spread_def screenshot_update_def no_updates_def)
  have bad: "\<not> shot_success data \<longrightarrow>
            deviceStates (fetchScreenshot_settle dev (FetchResolved data) c) = deviceStates c \<and>
            pendingUpdates (fetchScreenshot_settle dev (FetchResolved data) c) = pendingUpdates c"
    by (simp add: fetchScreenshot_settle_def)
  have rej: "deviceStates (fetchScreenshot_settle dev FetchRejected c) = deviceStates c \<and>
             pendingUpdates (fetchScreenshot_settle dev FetchRejected c) = pendingUpdates c"
    by (simp add: fetchScreenshot_settle_def)
  from inv noop ok bad rej show ?thesis by blast
qed

theorem polling_single_flight_witness:
  "\<not> screenshotFetchingRef chat_init \<and> pendingScreenshots chat_init = [] \<and>
   pendingScreenshots (poll_run [Tick ''D1'', Tick ''D1'', Tick ''D2''] chat_init) = [''D1''] \<and>
   fetchScreenshot_start ''D1'' (poll_run [Tick ''D1'', Tick ''D1'', Tick ''D2''] chat_init)
     = poll_run [Tick ''D1'', Tick ''D1'', Tick ''D2''] chat_init \<and>
   screenshot (getDeviceState (deviceStates
       (flush (fetchScreenshot_settle ''D1''
          (FetchResolved \<lparr>shot_success = True, shot_image = Some ''png'', shot_width = Some 1,
             shot_height = Some 2, shot_is_sensitive = None, shot_error = None\<rparr>)
          (poll_run [Tick ''D1'', Tick ''D1'', Tick ''D2''] chat_init)))) ''D1'')
     = Some \<lparr>shot_success = True, shot_image = Some ''png'', shot_width = Some 1,
             shot_height = Some 2, shot_is_sensitive = None, shot_error = None\<rparr>"
proof -
  have pre: "\<not> screenshotFetchingRef chat_init \<and> pendingScreenshots chat_init = []"
    by (simp add: chat_init_def)
  have pend: "pendingScreenshots (poll_run [Tick ''D1'', Tick ''D1'', Tick ''D2''] chat_init) = [''D1'']"
    by (simp add: chat_init_def fetchScreenshot_start_def)
  show ?thesis
    using pre pend
      polling_single_flight [of chat_init "poll_run [Tick ''D1'', Tick ''D1'', Tick ''D2''] chat_init"
        "[Tick ''D1'', Tick ''D1'', Tick ''D2'']" "''D1''"
        "\<lparr>shot_success = True, shot_image = Some ''png'', shot_width = Some 1,
             shot_height = Some 2, shot_is_sensitive = None, shot_error = None\<rparr>"]
    by simp
qed

section \<open>The two video flags move together\<close>

text \<open>
  Claim C9. In every store reachable from the empty one, every device record has
  \<open>useVideoStream = (\<not> videoStreamFailed)\<close>, and so does the default record. Every
  operation other than the fallback signal leaves both fields of an existing record as
  they were; the fallback signal sets \<open>videoStreamFailed = true\<close> and
  \<open>useVideoStream = false\<close> together. Hence the auto-mode branch of the render
  condition is the same as testing \<open>\<not> videoStreamFailed\<close> alone.
\<close>

theorem video_flags_move_together:
  "(run_ops ops Map.empty d = Some st \<longrightarrow>
      useVideoStream st = (\<not> videoStreamFailed st) \<and>
      (rendered_panel dev st = VideoPlayer) =
        (dev \<noteq> [] \<and> (displayMode st = Video \<or> (displayMode st = Auto \<and> \<not> videoStreamFailed st)))) \<and>
   useVideoStream default_state \<and> \<not> videoStreamFailed default_state \<and>
   (s d = Some st0 \<and> op \<noteq> Fallback d \<longrightarrow>
      (\<exists>st1. apply_op op s d = Some st1 \<and>
             useVideoStream st1 = useVideoStream st0 \<and>
             videoStreamFailed st1 = videoStreamFailed st0)) \<and>
   (\<exists>st1. apply_op (Fallback d) s d = Some st1 \<and> videoStreamFailed st1 \<and> \<not> useVideoStream st1)"
proof -
  have reach: "run_ops ops Map.empty d = Some st \<longrightarrow>
      useVideoStream st = (\<not> videoStreamFailed st) \<and>
      (rendered_panel dev st = VideoPlayer) =
        (dev \<noteq> [] \<and> (displayMode st = Video \<or> (displayMode st = Auto \<and> \<not> videoStreamFailed st)))"
  proof
    assume "run_ops ops Map.empty d = Some st"
    then have "useVideoStream st = (\<not> videoStreamFailed st)"
      using run_ops_flags [of Map.empty ops d st] by simp
    then show "useVideoStream st = (\<not> videoStreamFailed st) \<and>
      (rendered_panel dev st = VideoPlayer) =
        (dev \<noteq> [] \<and> (displayMode st = Video \<or> (displayMode st = Auto \<and> \<not> videoStreamFailed st)))"
      by (auto simp: rendered_panel_def)
  qed
  have dflt: "useVideoStream default_state \<and> \<not> videoStreamFailed default_state"
    by (simp add: default_state_def)
  have frame: "s d = Some st0 \<and> op \<noteq> Fallback d \<longrightarrow>
      (\<exists>st1. apply_op op s d = Some st1 \<and>
             useVideoStream st1 = useVideoStream st0 \<and>
             videoStreamFailed st1 = videoStreamFailed st0)"
    by (cases op)
       (auto simp: updateDeviceState_def spread_def no_updates_def update_defs
          onStep_updater_def onDone_updater_def onError_updater_def
          split: option.splits if_splits)
  have fb: "\<exists>st1. apply_op (Fallback d) s d = Some st1 \<and> videoStreamFailed st1 \<and> \<not> useVideoStream st1"
    by (simp add: updateDeviceState_same spread_def fallback_update_def no_updates_def)
  from reach dflt frame fb show ?thesis by blast
qed

theorem video_flags_move_together_witness:
  "run_ops [InitOk ''D1'', Fallback ''D1'', SetDisplayMode ''D1'' Auto] Map.empty ''D1''
     = Some (default_state\<lparr>initialized := True, useVideoStream := False, videoStreamFailed := True\<rparr>) \<and>
   rendered_panel ''D1''
     (default_state\<lparr>initialized := True, useVideoStream := False, videoStreamFailed := True\<rparr>)
     \<noteq> VideoPlayer \<and>
   (\<exists>st1. apply_op (Reset ''D1'') [''D1'' \<mapsto> default_state] ''D1'' = Some st1 \<and>
          useVideoStream st1 = useVideoStream default_state \<and>
          videoStreamFailed st1 = videoStreamFailed default_state)"
proof -
  have run: "run_ops [InitOk ''D1'', Fallback ''D1'', SetDisplayMode ''D1'' Auto] Map.empty ''D1''
     = Some (default_state\<lparr>initialized := True, useVideoStream := False, videoStreamFailed := True\<rparr>)"
    by (simp add: updateDeviceState_def spread_def no_updates_def default_state_def update_defs)
  have pre: "[''D1'' \<mapsto> default_state] ''D1'' = Some default_state \<and> Reset ''D1'' \<noteq> Fallback ''D1''"
    by simp
  show ?thesis
    using run pre
      video_flags_move_together
        [of "[InitOk ''D1'', Fallback ''D1'', SetDisplayMode ''D1'' Auto]" "''D1''"
            "default_state\<lparr>initialized := True, useVideoStream := False, videoStreamFailed := True\<rparr>"
            "''D1''" "[''D1'' \<mapsto> default_state]" default_state "Reset ''D1''"]
    by (simp add: default_state_def)
qed

section \<open>Callbacks on a device without a record\<close>

text \<open>
  Claim C10. If the store holds no record for the device of the send when a step, done
  or error updater is applied, the updater returns the store it was given.
\<close>

theorem callbacks_missing_state:
  "s dev = None \<Longrightarrow>
     onStep_updater dev mid th ac n s = s \<and>
     onDone_updater dev mid de s = s \<and>
     onError_updater dev mid ee s = s"
  by (simp add: onStep_updater_def onDone_updater_def onError_updater_def)

theorem callbacks_missing_state_witness:
  "(Map.empty :: store) ''D1'' = None \<and>
   onStep_updater ''D1'' ''7'' [''look''] [Action ''tap''] 1 Map.empty = Map.empty \<and>
   onDone_updater ''D1'' ''7'' \<lparr>done_message = ''ok'', done_success = True\<rparr> Map.empty = Map.empty \<and>
   onError_updater ''D1'' ''7'' \<lparr>error_message = ''boom''\<rparr> Map.empty = Map.empty"
  using callbacks_missing_state [of Map.empty "''D1''" "''7''" "[''look'']" "[Action ''tap'']" 1
      "\<lparr>done_message = ''ok'', done_success = True\<rparr>" "\<lparr>error_message = ''boom''\<rparr>"]
  by simp

end
